theory Spec2Isabelle
  imports Complex_Main
begin

section \<open>The API client (services/ResolumeApiClient.ts)\<close>

text \<open>
  JavaScript numbers that carry control values (BPM, opacity, position, polling interval)
  are modelled as rationals: every comparison and product the code performs on them is
  exact on the values involved. Times (\<open>Date.now()\<close>) and indices are integers.
  How a number is printed inside a URL is taken as a parameter \<open>num\<close>.
\<close>

datatype api_error =
  ResolumeApiError string "nat option" "string option"
  | FetchRejected string
  | JsonRejected string

text \<open>\<open>json\<close> is what \<open>response.json()\<close> settles to: \<open>Inl\<close> a rejection message, \<open>Inr\<close> the decoded payload.\<close>

record 'd http_response =
  ok :: bool
  status :: nat
  statusText :: string
  json :: "string + 'd"

datatype 'd fetch_outcome = Rejected string | Responded "'d http_response"

datatype 'd reply = EmptyObject | Payload 'd

record 'd cache_entry =
  data :: 'd
  timestamp :: int

text \<open>
  The client object. \<open>network_calls\<close> is the trace of the \<open>fetch\<close> invocations made so
  far (method option and full URL); it is an observation, the class has no such field.
\<close>

record 'd client =
  baseUrl :: string
  requestCache :: "string \<rightharpoonup> 'd cache_entry"
  network_calls :: "(string option \<times> string) list"

definition cacheTTL :: int where
  "cacheTTL = 1000"

text \<open>A whole number as the template literal prints it.\<close>

definition digit_char :: "nat \<Rightarrow> char" where
  "digit_char d = ''0123456789'' ! d"

fun decimal :: "nat \<Rightarrow> string" where
  "decimal n = (if 10 \<le> n then decimal (n div 10) else []) @ [digit_char (n mod 10)]"

declare decimal.simps [simp del]

text \<open>\<open>options.method || 'GET'\<close>: an absent or empty method counts as GET.\<close>

definition method_or_GET :: "string option \<Rightarrow> string" where
  "method_or_GET m = (case m of None \<Rightarrow> ''GET'' | Some x \<Rightarrow> if x = [] then ''GET'' else x)"

definition cacheKey :: "string option \<Rightarrow> string \<Rightarrow> string" where
  "cacheKey m url = method_or_GET m @ ''_'' @ url"

text \<open>\<open>options.method === 'GET' || !options.method\<close>\<close>

definition is_get :: "string option \<Rightarrow> bool" where
  "is_get m = (m = Some ''GET'' \<or> m = None \<or> m = Some [])"

text \<open>\<open>cached && Date.now() - cached.timestamp < this.cacheTTL\<close>\<close>

definition cache_hit :: "int \<Rightarrow> 'd cache_entry option \<Rightarrow> 'd option" where
  "cache_hit now cached =
     (case cached of
        None \<Rightarrow> None
      | Some e \<Rightarrow> if now - timestamp e < cacheTTL then Some (data e) else None)"

text \<open>
  \<open>request t_check t_store net endpoint m c\<close>: \<open>t_check\<close> is the clock read at the cache
  check, \<open>t_store\<close> the clock read when the decoded payload is stored, \<open>net\<close> what the
  network answers if it is asked.
\<close>

definition request ::
  "int \<Rightarrow> int \<Rightarrow> 'd fetch_outcome \<Rightarrow> string \<Rightarrow> string option \<Rightarrow> 'd client
     \<Rightarrow> (api_error + 'd reply) \<times> 'd client" where
  "request t_check t_store net endpoint m c =
     (let url = baseUrl c @ endpoint;
          key = cacheKey m url
      in case (if is_get m then cache_hit t_check (requestCache c key) else None) of
           Some d \<Rightarrow> (Inr (Payload d), c)
         | None \<Rightarrow>
             (let c1 = c\<lparr>network_calls := network_calls c @ [(m, url)]\<rparr>
              in case net of
                   Rejected msg \<Rightarrow> (Inl (FetchRejected msg), c1)
                 | Responded r \<Rightarrow>
                     if \<not> ok r then
                       (Inl (ResolumeApiError
                               (''HTTP '' @ decimal (status r) @ '': '' @ statusText r)
                               (Some (status r)) (Some endpoint)), c1)
                     else if status r = 204 then (Inr EmptyObject, c1)
                     else (case json r of
                             Inl msg \<Rightarrow> (Inl (JsonRejected msg), c1)
                           | Inr d \<Rightarrow>
                               (Inr (Payload d),
                                if is_get m
                                then c1\<lparr>requestCache :=
                                          (requestCache c1)(key \<mapsto> \<lparr>data = d, timestamp = t_store\<rparr>)\<rparr>
                                else c1))))"

text \<open>
  The write operations check their argument before they call \<open>request\<close>, and drop the
  reply (\<open>Promise<void>\<close>).
\<close>

definition setBpm ::
  "(rat \<Rightarrow> string) \<Rightarrow> int \<Rightarrow> int \<Rightarrow> 'd fetch_outcome \<Rightarrow> rat \<Rightarrow> 'd client
     \<Rightarrow> (api_error + unit) \<times> 'd client" where
  "setBpm num t_check t_store net bpm c =
     (if bpm < 20 \<or> bpm > 999 then
        (Inl (ResolumeApiError ''BPM must be between 20 and 999'' None None), c)
      else
        (case request t_check t_store net
                (''/api/resolume/composition/tempo/bpm?bpm='' @ num bpm) (Some ''POST'') c of
           (Inl e, c') \<Rightarrow> (Inl e, c')
         | (Inr _, c') \<Rightarrow> (Inr (), c')))"

definition setLayerOpacity ::
  "(rat \<Rightarrow> string) \<Rightarrow> int \<Rightarrow> int \<Rightarrow> 'd fetch_outcome \<Rightarrow> int \<Rightarrow> rat \<Rightarrow> 'd client
     \<Rightarrow> (api_error + unit) \<times> 'd client" where
  "setLayerOpacity num t_check t_store net layerIndex opacity c =
     (if opacity < 0 \<or> opacity > 1 then
        (Inl (ResolumeApiError ''Opacity must be between 0 and 1'' None None), c)
      else
        (case request t_check t_store net
                (''/api/resolume/composition/layers/'' @ num (of_int layerIndex)
                   @ ''/video/opacity?opacity='' @ num opacity) (Some ''POST'') c of
           (Inl e, c') \<Rightarrow> (Inl e, c')
         | (Inr _, c') \<Rightarrow> (Inr (), c')))"

definition setClipPosition ::
  "(rat \<Rightarrow> string) \<Rightarrow> int \<Rightarrow> int \<Rightarrow> 'd fetch_outcome \<Rightarrow> int \<Rightarrow> int \<Rightarrow> rat \<Rightarrow> 'd client
     \<Rightarrow> (api_error + unit) \<times> 'd client" where
  "setClipPosition num t_check t_store net layerIndex clipIndex position c =
     (if position < 0 \<or> position > 1 then
        (Inl (ResolumeApiError ''Position must be between 0 and 1'' None None), c)
      else
        (case request t_check t_store net
                (''/api/resolume/composition/layers/'' @ num (of_int layerIndex)
                   @ ''/clips/'' @ num (of_int clipIndex)
                   @ ''/transport/position?position='' @ num position) (Some ''POST'') c of
           (Inl e, c') \<Rightarrow> (Inl e, c')
         | (Inr _, c') \<Rightarrow> (Inr (), c')))"

text \<open>\<open>key.includes(endpoint)\<close>: the second string occurs somewhere in the first.\<close>

fun starts_with :: "string \<Rightarrow> string \<Rightarrow> bool" where
  "starts_with ys [] = True"
| "starts_with [] (x # xs) = False"
| "starts_with (y # ys) (x # xs) = (x = y \<and> starts_with ys xs)"

fun includes_str :: "string \<Rightarrow> string \<Rightarrow> bool" where
  "includes_str [] xs = (xs = [])"
| "includes_str (y # ys) xs = (starts_with (y # ys) xs \<or> includes_str ys xs)"

text \<open>\<open>invalidateCache\<close> deletes every entry whose key includes the endpoint.\<close>

definition invalidateCache :: "string \<Rightarrow> 'd client \<Rightarrow> 'd client" where
  "invalidateCache endpoint c =
     c\<lparr>requestCache := (\<lambda>key. if includes_str key endpoint then None else requestCache c key)\<rparr>"

definition clearCache :: "'d client \<Rightarrow> 'd client" where
  "clearCache c = c\<lparr>requestCache := Map.empty\<rparr>"

section \<open>Values thrown and caught by the hooks\<close>

text \<open>
  What a \<open>catch\<close> clause of a hook inspects of the value it caught: whether it is an
  \<open>Error\<close>, its message, and its \<open>statusCode\<close> if it has one.
\<close>

record thrown =
  instanceofError :: bool
  message :: string
  statusCode :: "nat option"

fun thrown_of :: "api_error \<Rightarrow> thrown" where
  "thrown_of (ResolumeApiError msg sc ep) = \<lparr>instanceofError = True, message = msg, statusCode = sc\<rparr>"
| "thrown_of (FetchRejected msg) = \<lparr>instanceofError = True, message = msg, statusCode = None\<rparr>"
| "thrown_of (JsonRejected msg) = \<lparr>instanceofError = True, message = msg, statusCode = None\<rparr>"

text \<open>\<open>err instanceof Error ? err.message : fallback\<close>\<close>

definition error_message :: "thrown \<Rightarrow> string \<Rightarrow> string" where
  "error_message err fallback = (if instanceofError err then message err else fallback)"

section \<open>The connection monitor (hooks/useResolumeConnection.ts)\<close>

record connection_status =
  connected :: bool
  config_id :: "string option"
  composition_name :: "string option"
  status_error :: "string option"

definition INITIAL_INTERVAL :: rat where "INITIAL_INTERVAL = 2000"
definition MAX_INTERVAL :: rat where "MAX_INTERVAL = 30000"
definition BACKOFF_MULTIPLIER :: rat where "BACKOFF_MULTIPLIER = 3 / 2"
definition SUCCESS_INTERVAL :: rat where "SUCCESS_INTERVAL = 5000"

text \<open>
  The state of the hook and its refs. \<open>timeoutRef\<close> holds the handle of the last
  \<open>setTimeout\<close>; \<open>pending_conn\<close> are the timers set and neither fired nor cleared, each
  with its handle and the delay it was given; \<open>next_handle_conn\<close> is the next fresh handle.
\<close>

record connection =
  isConnected_conn :: bool
  connectionStatus :: "connection_status option"
  isLoading_conn :: bool
  error_conn :: "string option"
  pollingIntervalRef :: rat
  timeoutRef :: "nat option"
  isMountedRef_conn :: bool
  pending_conn :: "(nat \<times> rat) list"
  next_handle_conn :: nat

definition connection_init :: connection where
  "connection_init =
     \<lparr>isConnected_conn = False, connectionStatus = None, isLoading_conn = True,
      error_conn = None, pollingIntervalRef = INITIAL_INTERVAL, timeoutRef = None,
      isMountedRef_conn = True, pending_conn = [], next_handle_conn = 1\<rparr>"

text \<open>
  \<open>checkConnection\<close> after its \<open>await\<close>: the argument is what
  \<open>resolumeApi.getConnectionStatus()\<close> settled to.
\<close>

definition checkConnection :: "thrown + connection_status \<Rightarrow> connection \<Rightarrow> connection" where
  "checkConnection settled s =
     (if \<not> isMountedRef_conn s then s
      else case settled of
        Inr st \<Rightarrow>
          (let s1 = s\<lparr>connectionStatus := Some st, isConnected_conn := connected st,
                       error_conn := None\<rparr>;
               s2 = (if connected st then s1\<lparr>pollingIntervalRef := SUCCESS_INTERVAL\<rparr> else s1)
           in s2\<lparr>isLoading_conn := False\<rparr>)
      | Inl err \<Rightarrow>
          s\<lparr>error_conn := Some (error_message err ''Connection failed''),
            isConnected_conn := False,
            pollingIntervalRef := min (pollingIntervalRef s * BACKOFF_MULTIPLIER) MAX_INTERVAL,
            isLoading_conn := False\<rparr>)"

definition clearTimeout_conn :: "nat \<Rightarrow> connection \<Rightarrow> connection" where
  "clearTimeout_conn h s = s\<lparr>pending_conn := filter (\<lambda>(h', d). h' \<noteq> h) (pending_conn s)\<rparr>"

text \<open>\<open>scheduleNextCheck\<close>: the delay is the interval's value when the timer is set.\<close>

definition scheduleNextCheck :: "connection \<Rightarrow> connection" where
  "scheduleNextCheck s =
     s\<lparr>timeoutRef := Some (next_handle_conn s),
       pending_conn := pending_conn s @ [(next_handle_conn s, pollingIntervalRef s)],
       next_handle_conn := Suc (next_handle_conn s)\<rparr>"

text \<open>A check started by a fired timer: \<open>checkConnection().then(scheduleNextCheck)\<close>.\<close>

definition polled_check :: "thrown + connection_status \<Rightarrow> connection \<Rightarrow> connection" where
  "polled_check settled s = scheduleNextCheck (checkConnection settled s)"

text \<open>\<open>retryConnection\<close> up to the call of \<open>checkConnection\<close>, which it does not chain.\<close>

definition retryConnection :: "connection \<Rightarrow> connection" where
  "retryConnection s =
     (let s1 = s\<lparr>pollingIntervalRef := INITIAL_INTERVAL\<rparr>
      in case timeoutRef s1 of None \<Rightarrow> s1 | Some h \<Rightarrow> clearTimeout_conn h s1)"


text \<open>
  The polling effect when it is set up: the flag is raised, a first check is started
  (it settles later, through \<open>checkConnection\<close>, and is not chained), and the first timer
  is set. When a timer fires its callback starts a check that settles through
  \<open>polled_check\<close>.
\<close>

definition setup_conn :: "connection \<Rightarrow> connection" where
  "setup_conn s = scheduleNextCheck (s\<lparr>isMountedRef_conn := True\<rparr>)"

definition timer_fires_conn :: "nat \<Rightarrow> connection \<Rightarrow> connection" where
  "timer_fires_conn h s = clearTimeout_conn h s"

definition fetch_failed :: thrown where
  "fetch_failed = \<lparr>instanceofError = True, message = ''Failed to fetch'', statusCode = None\<rparr>"

text \<open>The interval after \<open>n\<close> consecutive checks that throw.\<close>

fun failures :: "nat \<Rightarrow> connection \<Rightarrow> connection" where
  "failures 0 s = s"
| "failures (Suc n) s = failures n (checkConnection (Inl fetch_failed) s)"

section \<open>The clip reconciler (hooks/useResolumeClips.ts)\<close>

record clip_view_model =
  clip_id :: int
  name :: string
  isConnected :: bool
  thumbnailUrl :: string
  opacityParameterId :: "int option"
  positionParameterId :: "int option"

text \<open>
  A \<open>ClipsResponse\<close> as it arrives: the response may be absent, and so may its \<open>clips\<close>
  field (\<open>response?.clips ?? []\<close>).
\<close>

type_synonym clips_response = "clip_view_model list option option"

datatype clips_api_call = GetClipsForLayer int | TriggerClip int int | ClearLayer int

text \<open>
  The state of the hook and its refs. \<open>refreshTimerRef\<close> holds the period of the last
  \<open>setInterval\<close> and \<open>refresh_running\<close> tells whether that interval still runs;
  \<open>timeouts_clips\<close> are the delays of the \<open>setTimeout\<close> callbacks set and not yet
  fired (each callback is the guarded refetch); \<open>api_calls_clips\<close> is the trace of the
  client operations called.
\<close>

record clips_hook =
  clips :: "clip_view_model list"
  activeClipId :: "int option"
  activeClipIndex :: "int option"
  selectedClipIndex :: "int option"
  isLoading_clips :: bool
  error_clips :: "string option"
  isMountedRef_clips :: bool
  refreshTimerRef :: "int option"
  refresh_running :: bool
  timeouts_clips :: "nat list"
  api_calls_clips :: "clips_api_call list"

definition clips_init :: clips_hook where
  "clips_init =
     \<lparr>clips = [], activeClipId = None, activeClipIndex = None, selectedClipIndex = None,
      isLoading_clips = False, error_clips = None, isMountedRef_clips = True,
      refreshTimerRef = None, refresh_running = False, timeouts_clips = [],
      api_calls_clips = []\<rparr>"

text \<open>\<open>xs[i]\<close> for an integer \<open>i\<close>: \<open>undefined\<close> outside the array.\<close>

definition array_get :: "'a list \<Rightarrow> int \<Rightarrow> 'a option" where
  "array_get xs i = (if 0 \<le> i \<and> i < int (length xs) then Some (xs ! nat i) else None)"

text \<open>\<open>Array.prototype.findIndex\<close>: the first index where the predicate holds, or \<open>-1\<close>.\<close>

fun findIndex :: "('a \<Rightarrow> bool) \<Rightarrow> 'a list \<Rightarrow> int" where
  "findIndex P [] = - 1"
| "findIndex P (x # xs) =
     (if P x then 0 else (let i = findIndex P xs in if i < 0 then - 1 else i + 1))"

definition signed_decimal :: "int \<Rightarrow> string" where
  "signed_decimal i = (if 0 \<le> i then decimal (nat i) else CHR ''-'' # decimal (nat (- i)))"

text \<open>
  \<open>fetchClips\<close> up to its \<open>await\<close>. The arguments \<open>layer\<close> and \<open>conn\<close> are the hook's
  options \<open>layerIndex\<close> and \<open>isConnected\<close> the callback was created with.
\<close>

definition fetchClips_begin :: "int \<Rightarrow> bool \<Rightarrow> clips_hook \<Rightarrow> clips_hook" where
  "fetchClips_begin layer conn s =
     (if \<not> conn then s\<lparr>clips := []\<rparr>
      else s\<lparr>isLoading_clips := True, error_clips := None,
             api_calls_clips := api_calls_clips s @ [GetClipsForLayer layer]\<rparr>)"

text \<open>\<open>fetchClips\<close> after its \<open>await\<close>, on what \<open>getClipsForLayer\<close> settled to.\<close>

definition fetchClips_settle :: "int \<Rightarrow> thrown + clips_response \<Rightarrow> clips_hook \<Rightarrow> clips_hook" where
  "fetchClips_settle layer settled s =
     (if \<not> isMountedRef_clips s then s
      else case settled of
        Inr response \<Rightarrow>
          (let clipsData = (case response of Some (Some cs) \<Rightarrow> cs | _ \<Rightarrow> []);
               s1 = s\<lparr>clips := clipsData\<rparr>;
               activeClip = find isConnected clipsData;
               activeIdx = findIndex isConnected clipsData;
               s2 = (case activeClip of
                       Some c \<Rightarrow>
                         s1\<lparr>activeClipId := Some (clip_id c),
                            activeClipIndex := Some (activeIdx + 1),
                            selectedClipIndex := Some (activeIdx + 1)\<rparr>
                     | None \<Rightarrow> s1\<lparr>activeClipId := None, activeClipIndex := None\<rparr>)
           in s2\<lparr>isLoading_clips := False\<rparr>)
      | Inl err \<Rightarrow>
          if statusCode err = Some 404 then
            s\<lparr>clips := [],
              error_clips := Some (''Layer '' @ signed_decimal layer @ '' not found in Resolume composition''),
              isLoading_clips := False\<rparr>
          else
            s\<lparr>error_clips := Some (error_message err ''Failed to fetch clips''),
              isLoading_clips := False\<rparr>)"

definition selectClip :: "int option \<Rightarrow> clips_hook \<Rightarrow> clips_hook" where
  "selectClip clipIndex s = s\<lparr>selectedClipIndex := clipIndex\<rparr>"

definition not_connected :: thrown where
  "not_connected = \<lparr>instanceofError = True, message = ''Not connected to Resolume'', statusCode = None\<rparr>"

text \<open>
  \<open>triggerClip\<close> up to its \<open>await\<close>: the guard, the optimistic update, the call of the
  client. \<open>Inl\<close> is the error thrown.
\<close>

definition triggerClip_begin :: "int \<Rightarrow> bool \<Rightarrow> int \<Rightarrow> clips_hook \<Rightarrow> thrown + clips_hook" where
  "triggerClip_begin layer conn clipIndex s =
     (if \<not> conn then Inl not_connected
      else
        (let s1 = (case array_get (clips s) (clipIndex - 1) of
                     Some targetClip \<Rightarrow>
                       s\<lparr>activeClipId := Some (clip_id targetClip),
                         activeClipIndex := Some clipIndex,
                         selectedClipIndex := Some clipIndex\<rparr>
                   | None \<Rightarrow> s)
         in Inr (s1\<lparr>api_calls_clips := api_calls_clips s1 @ [TriggerClip layer clipIndex]\<rparr>)))"

text \<open>
  \<open>triggerClip\<close> after its \<open>await\<close>, on what \<open>resolumeApi.triggerClip\<close> settled to. The
  first component is how the operation itself settles: \<open>Inl\<close> the error rethrown.
\<close>

definition triggerClip_settle :: "int \<Rightarrow> thrown + unit \<Rightarrow> clips_hook \<Rightarrow> (thrown + unit) \<times> clips_hook" where
  "triggerClip_settle layer settled s =
     (case settled of
        Inr _ \<Rightarrow> (Inr (), s\<lparr>timeouts_clips := timeouts_clips s @ [500]\<rparr>)
      | Inl err \<Rightarrow> (Inl err, fetchClips_begin layer True s))"

definition clearLayer_begin :: "int \<Rightarrow> bool \<Rightarrow> clips_hook \<Rightarrow> thrown + clips_hook" where
  "clearLayer_begin layer conn s =
     (if \<not> conn then Inl not_connected
      else Inr (s\<lparr>activeClipId := None, activeClipIndex := None, selectedClipIndex := None,
                 api_calls_clips := api_calls_clips s @ [ClearLayer layer]\<rparr>))"

definition clearLayer_settle :: "int \<Rightarrow> thrown + unit \<Rightarrow> clips_hook \<Rightarrow> (thrown + unit) \<times> clips_hook" where
  "clearLayer_settle layer settled s =
     (case settled of
        Inr _ \<Rightarrow> (Inr (), s\<lparr>timeouts_clips := timeouts_clips s @ [300]\<rparr>)
      | Inl err \<Rightarrow> (Inl err, fetchClips_begin layer True s))"

text \<open>A delayed callback fires: \<open>if (isMountedRef.current) fetchClips()\<close>.\<close>

definition timeout_fires :: "int \<Rightarrow> bool \<Rightarrow> nat \<Rightarrow> clips_hook \<Rightarrow> clips_hook" where
  "timeout_fires layer conn d s =
     (let s1 = s\<lparr>timeouts_clips := remove1 d (timeouts_clips s)\<rparr>
      in if isMountedRef_clips s1 then fetchClips_begin layer conn s1 else s1)"

text \<open>
  The effects: set-up with its first fetch and the refresh interval, its clean-up, and
  the reset of the selection when the layer changes. A tick of the refresh interval is
  a call of \<open>fetchClips\<close>.
\<close>

definition setup_clips :: "int \<Rightarrow> bool \<Rightarrow> int \<Rightarrow> clips_hook \<Rightarrow> clips_hook" where
  "setup_clips layer conn autoRefreshInterval s =
     (let s1 = fetchClips_begin layer conn (s\<lparr>isMountedRef_clips := True\<rparr>)
      in if conn \<and> autoRefreshInterval > 0
         then s1\<lparr>refreshTimerRef := Some autoRefreshInterval, refresh_running := True\<rparr>
         else s1)"

definition cleanup_clips :: "clips_hook \<Rightarrow> clips_hook" where
  "cleanup_clips s =
     (let s1 = s\<lparr>isMountedRef_clips := False\<rparr>
      in if refreshTimerRef s1 \<noteq> None then s1\<lparr>refresh_running := False\<rparr> else s1)"

definition layer_changed :: "clips_hook \<Rightarrow> clips_hook" where
  "layer_changed s = s\<lparr>selectedClipIndex := None\<rparr>"

text \<open>Everything that can happen to the hook, as one step function.\<close>

datatype clips_event =
  FetchBegin
  | FetchSettle "thrown + clips_response"
  | SelectClip "int option"
  | TriggerBegin int
  | TriggerSettle "thrown + unit"
  | ClearBegin
  | ClearSettle "thrown + unit"
  | TimeoutFires nat
  | Setup int
  | Cleanup
  | LayerChanged

fun clips_step :: "int \<Rightarrow> bool \<Rightarrow> clips_event \<Rightarrow> clips_hook \<Rightarrow> clips_hook" where
  "clips_step layer conn FetchBegin s = fetchClips_begin layer conn s"
| "clips_step layer conn (FetchSettle r) s = fetchClips_settle layer r s"
| "clips_step layer conn (SelectClip i) s = selectClip i s"
| "clips_step layer conn (TriggerBegin i) s =
     (case triggerClip_begin layer conn i s of Inl e \<Rightarrow> s | Inr s' \<Rightarrow> s')"
| "clips_step layer conn (TriggerSettle r) s = snd (triggerClip_settle layer r s)"
| "clips_step layer conn ClearBegin s =
     (case clearLayer_begin layer conn s of Inl e \<Rightarrow> s | Inr s' \<Rightarrow> s')"
| "clips_step layer conn (ClearSettle r) s = snd (clearLayer_settle layer r s)"
| "clips_step layer conn (TimeoutFires d) s = timeout_fires layer conn d s"
| "clips_step layer conn (Setup i) s = setup_clips layer conn i s"
| "clips_step layer conn Cleanup s = cleanup_clips s"
| "clips_step layer conn LayerChanged s = layer_changed s"

definition active_pair :: "clips_hook \<Rightarrow> bool" where
  "active_pair s = ((activeClipId s = None) = (activeClipIndex s = None))"

section \<open>The parameter controller (hooks/useResolumeControls.ts)\<close>

definition DEBOUNCE_DELAY :: nat where
  "DEBOUNCE_DELAY = 150"

datatype control = Bpm | Opacity | Scrub

text \<open>A call of one of the client's write operations, with its arguments.\<close>

datatype write_call =
  SetBpmCall rat
  | SetLayerOpacityCall int rat
  | SetClipPositionCall int int rat

fun control_of :: "write_call \<Rightarrow> control" where
  "control_of (SetBpmCall v) = Bpm"
| "control_of (SetLayerOpacityCall l v) = Opacity"
| "control_of (SetClipPositionCall l c v) = Scrub"

text \<open>
  Whether the client operation gets as far as \<open>request\<close>: the negation of the check
  that \<open>setBpm\<close>, \<open>setLayerOpacity\<close> and \<open>setClipPosition\<close> of the client start with.
\<close>

fun passes_check :: "write_call \<Rightarrow> bool" where
  "passes_check (SetBpmCall v) = (\<not> (v < 20 \<or> v > 999))"
| "passes_check (SetLayerOpacityCall l v) = (\<not> (v < 0 \<or> v > 1))"
| "passes_check (SetClipPositionCall l c v) = (\<not> (v < 0 \<or> v > 1))"

text \<open>
  The state of the hook, its refs, and the timers of the environment: \<open>clock\<close> is the
  time in milliseconds, \<open>pending\<close> the timers set and neither fired nor cleared (handle,
  time due, and the write its callback performs), \<open>next_handle\<close> the next fresh handle,
  \<open>api_calls\<close> the trace of the client's write operations called by fired callbacks.
\<close>

record controls =
  bpm :: rat
  opacity :: rat
  scrubPosition :: rat
  error_ctl :: "string option"
  isBpmLoading :: bool
  isOpacityLoading :: bool
  isScrubbing :: bool
  bpmTimeoutRef :: "nat option"
  opacityTimeoutRef :: "nat option"
  scrubTimeoutRef :: "nat option"
  isMountedRef_ctl :: bool
  clock :: nat
  pending :: "(nat \<times> nat \<times> write_call) list"
  next_handle :: nat
  api_calls :: "write_call list"

definition controls_init :: controls where
  "controls_init =
     \<lparr>bpm = 120, opacity = 100, scrubPosition = 0, error_ctl = None,
      isBpmLoading = False, isOpacityLoading = False, isScrubbing = False,
      bpmTimeoutRef = None, opacityTimeoutRef = None, scrubTimeoutRef = None,
      isMountedRef_ctl = True, clock = 0, pending = [], next_handle = 1, api_calls = []\<rparr>"

text \<open>The options the hook is called with.\<close>

record controls_options =
  layerIndex :: int
  activeClipId_opt :: "int option"
  activeClipIndex_opt :: "int option"
  isConnected_opt :: bool

definition clearTimeout :: "nat \<Rightarrow> controls \<Rightarrow> controls" where
  "clearTimeout h s = s\<lparr>pending := filter (\<lambda>(h', due, w). h' \<noteq> h) (pending s)\<rparr>"

text \<open>\<open>if (ref.current) clearTimeout(ref.current)\<close>: a handle is never falsy.\<close>

definition clear_ref :: "nat option \<Rightarrow> controls \<Rightarrow> controls" where
  "clear_ref r s = (case r of None \<Rightarrow> s | Some h \<Rightarrow> clearTimeout h s)"

text \<open>\<open>setTimeout(callback, DEBOUNCE_DELAY)\<close>, the callback performing the write \<open>w\<close>.\<close>

definition setTimeout :: "write_call \<Rightarrow> controls \<Rightarrow> controls" where
  "setTimeout w s =
     s\<lparr>pending := pending s @ [(next_handle s, clock s + DEBOUNCE_DELAY, w)],
       next_handle := Suc (next_handle s)\<rparr>"

definition setBpm_hook :: "rat \<Rightarrow> controls \<Rightarrow> controls" where
  "setBpm_hook v s =
     (let s1 = s\<lparr>bpm := v, error_ctl := None\<rparr>;
          s2 = clear_ref (bpmTimeoutRef s1) s1;
          h = next_handle s2
      in (setTimeout (SetBpmCall v) s2)\<lparr>bpmTimeoutRef := Some h\<rparr>)"

definition setOpacity_hook :: "int \<Rightarrow> rat \<Rightarrow> controls \<Rightarrow> controls" where
  "setOpacity_hook layer v s =
     (let s1 = s\<lparr>opacity := v, error_ctl := None\<rparr>;
          s2 = clear_ref (opacityTimeoutRef s1) s1;
          h = next_handle s2
      in (setTimeout (SetLayerOpacityCall layer (v / 100)) s2)\<lparr>opacityTimeoutRef := Some h\<rparr>)"

text \<open>\<open>!x\<close> for \<open>x\<close> a number or null: null and zero are falsy.\<close>

definition falsy :: "int option \<Rightarrow> bool" where
  "falsy x = (x = None \<or> x = Some 0)"

definition setScrubPosition :: "controls_options \<Rightarrow> rat \<Rightarrow> controls \<Rightarrow> controls" where
  "setScrubPosition opts v s =
     (if \<not> isConnected_opt opts \<or> falsy (activeClipId_opt opts) \<or> falsy (activeClipIndex_opt opts)
      then s
      else
        (let s1 = s\<lparr>scrubPosition := v, error_ctl := None\<rparr>;
             s2 = clear_ref (scrubTimeoutRef s1) s1;
             h = next_handle s2
         in (setTimeout (SetClipPositionCall (layerIndex opts) (the (activeClipIndex_opt opts)) v) s2)
              \<lparr>scrubTimeoutRef := Some h\<rparr>))"

text \<open>
  A debounce callback runs up to its \<open>await\<close>: the loading flag of its control is set and
  the client's operation is called.
\<close>

definition set_loading :: "control \<Rightarrow> bool \<Rightarrow> controls \<Rightarrow> controls" where
  "set_loading k b s =
     (case k of
        Bpm \<Rightarrow> s\<lparr>isBpmLoading := b\<rparr>
      | Opacity \<Rightarrow> s\<lparr>isOpacityLoading := b\<rparr>
      | Scrub \<Rightarrow> s\<lparr>isScrubbing := b\<rparr>)"

definition commit_begin :: "write_call \<Rightarrow> controls \<Rightarrow> controls" where
  "commit_begin w s = (set_loading (control_of w) True s)\<lparr>api_calls := api_calls s @ [w]\<rparr>"

definition fallback_message :: "control \<Rightarrow> string" where
  "fallback_message k =
     (case k of Bpm \<Rightarrow> ''Failed to set BPM'' | Opacity \<Rightarrow> ''Failed to set opacity''
      | Scrub \<Rightarrow> ''Failed to scrub clip'')"

text \<open>
  A state setter called after the component has unmounted is dropped by React. The flag
  of this hook is cleared by the clean-up of an effect without dependencies, that is
  exactly at unmount: the \<open>setError\<close> of the \<open>catch\<close> block, which does not look at the
  flag, changes the error only while the flag is up.
\<close>

definition setError_late :: "string option \<Rightarrow> controls \<Rightarrow> controls" where
  "setError_late e s = (if isMountedRef_ctl s then s\<lparr>error_ctl := e\<rparr> else s)"

text \<open>The callback after its \<open>await\<close>, on what the client's operation settled to.\<close>

definition commit_settle :: "control \<Rightarrow> thrown + unit \<Rightarrow> controls \<Rightarrow> controls" where
  "commit_settle k settled s =
     (let s1 = (case settled of
                  Inr _ \<Rightarrow> s
                | Inl err \<Rightarrow> setError_late (Some (error_message err (fallback_message k))) s)
      in if isMountedRef_ctl s1 then set_loading k False s1 else s1)"

text \<open>
  Time passes: the clock moves on by \<open>d\<close> milliseconds and the callbacks of the timers
  due by then run, in the order the timers were set (all have the same delay).
\<close>

definition advance :: "nat \<Rightarrow> controls \<Rightarrow> controls" where
  "advance d s =
     (let now = clock s + d;
          due = filter (\<lambda>(h, t, w). t \<le> now) (pending s);
          rest = filter (\<lambda>(h, t, w). \<not> t \<le> now) (pending s)
      in foldl (\<lambda>s' (h, t, w). commit_begin w s') (s\<lparr>clock := now, pending := rest\<rparr>) due)"

definition unmount_ctl :: "controls \<Rightarrow> controls" where
  "unmount_ctl s =
     (let s1 = s\<lparr>isMountedRef_ctl := False\<rparr>;
          s2 = clear_ref (bpmTimeoutRef s1) s1;
          s3 = clear_ref (opacityTimeoutRef s2) s2
      in clear_ref (scrubTimeoutRef s3) s3)"

text \<open>One of the three setters, chosen by its control.\<close>

definition call_setter :: "control \<Rightarrow> controls_options \<Rightarrow> rat \<Rightarrow> controls \<Rightarrow> controls" where
  "call_setter k opts v s =
     (case k of
        Bpm \<Rightarrow> setBpm_hook v s
      | Opacity \<Rightarrow> setOpacity_hook (layerIndex opts) v s
      | Scrub \<Rightarrow> setScrubPosition opts v s)"

text \<open>A burst of calls of one setter, each after a gap of so many milliseconds.\<close>

fun burst :: "control \<Rightarrow> controls_options \<Rightarrow> (nat \<times> rat) list \<Rightarrow> controls \<Rightarrow> controls" where
  "burst k opts [] s = s"
| "burst k opts ((gap, v) # rest) s = burst k opts rest (call_setter k opts v (advance gap s))"

definition display :: "control \<Rightarrow> controls \<Rightarrow> rat" where
  "display k s = (case k of Bpm \<Rightarrow> bpm s | Opacity \<Rightarrow> opacity s | Scrub \<Rightarrow> scrubPosition s)"

definition timeout_ref :: "control \<Rightarrow> controls \<Rightarrow> nat option" where
  "timeout_ref k s =
     (case k of Bpm \<Rightarrow> bpmTimeoutRef s | Opacity \<Rightarrow> opacityTimeoutRef s | Scrub \<Rightarrow> scrubTimeoutRef s)"

text \<open>The write a setter commits for the value \<open>v\<close>.\<close>

definition commit_of :: "control \<Rightarrow> controls_options \<Rightarrow> rat \<Rightarrow> write_call" where
  "commit_of k opts v =
     (case k of
        Bpm \<Rightarrow> SetBpmCall v
      | Opacity \<Rightarrow> SetLayerOpacityCall (layerIndex opts) (v / 100)
      | Scrub \<Rightarrow> SetClipPositionCall (layerIndex opts) (the (activeClipIndex_opt opts)) v)"

definition writes :: "control \<Rightarrow> controls \<Rightarrow> write_call list" where
  "writes k s = filter (\<lambda>w. control_of w = k) (api_calls s)"

definition network_writes :: "control \<Rightarrow> controls \<Rightarrow> write_call list" where
  "network_writes k s = filter passes_check (writes k s)"

definition pending_of :: "control \<Rightarrow> controls \<Rightarrow> (nat \<times> nat \<times> write_call) list" where
  "pending_of k s = filter (\<lambda>(h, t, w). control_of w = k) (pending s)"

definition gate_open :: "control \<Rightarrow> controls_options \<Rightarrow> bool" where
  "gate_open k opts =
     (k \<noteq> Scrub \<or> (isConnected_opt opts \<and> \<not> falsy (activeClipId_opt opts)
                       \<and> \<not> falsy (activeClipIndex_opt opts)))"

text \<open>
  Well-formed timers: every pending handle is older than the next fresh one, handles are
  distinct, and a pending timer of a control is the one its ref holds.
\<close>

definition wf_timers :: "controls \<Rightarrow> bool" where
  "wf_timers s =
     (list_all (\<lambda>(h, t, w). h < next_handle s \<and> timeout_ref (control_of w) s = Some h) (pending s)
      \<and> distinct (map fst (pending s)))"

text \<open>Everything that can happen to the controller, as one step function.\<close>

datatype controls_event =
  Call control controls_options rat
  | Advance nat
  | Settle control "thrown + unit"
  | Unmount

fun controls_step :: "controls_event \<Rightarrow> controls \<Rightarrow> controls" where
  "controls_step (Call k opts v) s = call_setter k opts v s"
| "controls_step (Advance d) s = advance d s"
| "controls_step (Settle k r) s = commit_settle k r s"
| "controls_step Unmount s = unmount_ctl s"

section \<open>Concrete inputs\<close>

definition client0 :: "nat client" where
  "client0 = \<lparr>baseUrl = '''', requestCache = Map.empty, network_calls = []\<rparr>"

definition ok_response :: "nat \<Rightarrow> nat http_response" where
  "ok_response d = \<lparr>ok = True, status = 200, statusText = ''OK'', json = Inr d\<rparr>"

definition no_content :: "nat http_response" where
  "no_content =
     \<lparr>ok = True, status = 204, statusText = ''No Content'',
      json = Inl ''Unexpected end of JSON input''\<rparr>"

text \<open>
  Three reads of the status endpoint: the first at time 0 is answered by the network, the
  second at 900 and the third at 1500 find the client as the one before left it.
\<close>

definition read_A :: "(api_error + nat reply) \<times> nat client" where
  "read_A = request 0 0 (Responded (ok_response 42)) ''/api/resolume/status'' None client0"

definition read_B :: "(api_error + nat reply) \<times> nat client" where
  "read_B = request 900 900 (Responded (ok_response 43)) ''/api/resolume/status'' None (snd read_A)"

definition read_C :: "(api_error + nat reply) \<times> nat client" where
  "read_C = request 1500 1500 (Responded (ok_response 44)) ''/api/resolume/status'' None (snd read_B)"

text \<open>Two reads one millisecond apart, the first answered with 204.\<close>

definition read_204 :: "(api_error + nat reply) \<times> nat client" where
  "read_204 = request 0 0 (Responded no_content) ''/api/resolume/status'' None client0"

definition read_after_204 :: "(api_error + nat reply) \<times> nat client" where
  "read_after_204 = request 1 1 (Responded no_content) ''/api/resolume/status'' None (snd read_204)"

definition status_down :: connection_status where
  "status_down =
     \<lparr>connected = False, config_id = None, composition_name = None,
      status_error = Some ''Resolume not reachable''\<rparr>"

definition status_up :: connection_status where
  "status_up =
     \<lparr>connected = True, config_id = Some ''cfg'', composition_name = Some ''Show'',
      status_error = None\<rparr>"

definition http_500 :: thrown where
  "http_500 =
     \<lparr>instanceofError = True, message = ''HTTP 500: Internal Server Error'',
      statusCode = Some 500\<rparr>"

definition clip :: "int \<Rightarrow> bool \<Rightarrow> clip_view_model" where
  "clip i c =
     \<lparr>clip_id = i, name = ''clip'', isConnected = c, thumbnailUrl = ''/thumb'',
      opacityParameterId = None, positionParameterId = None\<rparr>"

definition four_clips :: "clip_view_model list" where
  "four_clips = [clip 101 False, clip 102 False, clip 103 False, clip 104 True]"

text \<open>The reconciler of layer 1 after a first fetch that brought \<open>four_clips\<close>.\<close>

definition clips_loaded :: clips_hook where
  "clips_loaded =
     fetchClips_settle 1 (Inr (Some (Some four_clips))) (fetchClips_begin 1 True clips_init)"


definition gate_shut :: controls_options where
  "gate_shut =
     \<lparr>layerIndex = 1, activeClipId_opt = None, activeClipIndex_opt = None,
      isConnected_opt = True\<rparr>"

definition disconnected :: controls_options where
  "disconnected =
     \<lparr>layerIndex = 1, activeClipId_opt = Some 104, activeClipIndex_opt = Some 4,
      isConnected_opt = False\<rparr>"

definition playing :: controls_options where
  "playing =
     \<lparr>layerIndex = 1, activeClipId_opt = Some 104, activeClipIndex_opt = Some 4,
      isConnected_opt = True\<rparr>"

text \<open>
  \<open>setBpm(128)\<close> was called, 150 ms passed, the callback ran and its request is in
  flight; then the component is unmounted.
\<close>

definition bpm_in_flight :: controls where
  "bpm_in_flight = advance 150 (setBpm_hook 128 controls_init)"

definition torn_down :: controls where
  "torn_down = unmount_ctl bpm_in_flight"



text \<open>
  Two bursts, each followed by 150 ms of quiet: two calls of the scrub setter while no
  clip is active, and two calls of the BPM setter ending on 1000.
\<close>

definition scrub_burst_shut :: controls where
  "scrub_burst_shut =
     advance 150 (burst Scrub gate_shut [(40, 1 / 2)] (call_setter Scrub gate_shut (1 / 4) controls_init))"

definition bpm_burst_high :: controls where
  "bpm_burst_high =
     advance 150 (burst Bpm playing [(40, 1000)] (call_setter Bpm playing 990 controls_init))"

section \<open>Properties of the API client\<close>

lemma cacheKey_get: "is_get m \<Longrightarrow> cacheKey m url = ''GET_'' @ url"
  by (auto simp: is_get_def cacheKey_def method_or_GET_def)

lemma request_fetched_stores:
  assumes "is_get m"
    and "request t1 ts net endpoint m c = (Inr (Payload d), c1)"
    and "network_calls c1 = network_calls c @ [(m, baseUrl c @ endpoint)]"
  shows "requestCache c1 (''GET_'' @ baseUrl c @ endpoint) = Some \<lparr>data = d, timestamp = ts\<rparr>
         \<and> baseUrl c1 = baseUrl c"
  using assms
  by (auto simp: request_def Let_def cacheKey_get
           split: option.splits fetch_outcome.splits if_splits sum.splits)

text \<open>
  C6. \<open>setBpm\<close> of the client: a value below 20 or above 999 yields the validation error
  and leaves the client as it was, its trace of network calls included; a value from
  20 to 999, both bounds included, reaches the network with a POST to the tempo endpoint.
\<close>

theorem setBpm_range_check:
  "(v < 20 \<or> v > 999 \<longrightarrow>
      setBpm num t1 t2 net v c
        = (Inl (ResolumeApiError ''BPM must be between 20 and 999'' None None), c))
   \<and> (20 \<le> v \<and> v \<le> 999 \<longrightarrow>
      network_calls (snd (setBpm num t1 t2 net v c))
        = network_calls c
            @ [(Some ''POST'', baseUrl c @ ''/api/resolume/composition/tempo/bpm?bpm='' @ num v)])"
  by (auto simp: setBpm_def request_def is_get_def Let_def
           split: fetch_outcome.splits sum.splits prod.splits)

theorem setBpm_range_check_witness:
  "setBpm (\<lambda>x. ''n'') 0 0 (Rejected ''down'') 19 client0
      = (Inl (ResolumeApiError ''BPM must be between 20 and 999'' None None), client0)
   \<and> setBpm (\<lambda>x. ''n'') 0 0 (Rejected ''down'') 1000 client0
      = (Inl (ResolumeApiError ''BPM must be between 20 and 999'' None None), client0)
   \<and> network_calls (snd (setBpm (\<lambda>x. ''n'') 0 0 (Rejected ''down'') 20 client0))
      = [(Some ''POST'', ''/api/resolume/composition/tempo/bpm?bpm=n'')]
   \<and> network_calls (snd (setBpm (\<lambda>x. ''n'') 0 0 (Rejected ''down'') 999 client0))
      = [(Some ''POST'', ''/api/resolume/composition/tempo/bpm?bpm=n'')]"
  using setBpm_range_check [of 19 "\<lambda>x. ''n''" 0 0 "Rejected ''down''" client0]
        setBpm_range_check [of 1000 "\<lambda>x. ''n''" 0 0 "Rejected ''down''" client0]
        setBpm_range_check [of 20 "\<lambda>x. ''n''" 0 0 "Rejected ''down''" client0]
        setBpm_range_check [of 999 "\<lambda>x. ''n''" 0 0 "Rejected ''down''" client0]
  by (simp add: client0_def)

text \<open>
  C7, as stated, fails. The time to live is counted from the moment the payload was
  stored, and a read served from the cache does not renew it: read B at 900 is served
  from the cache, read C at 1500, 600 ms after B, goes to the network. And a read
  answered with 204 stores nothing: the read one millisecond later goes to the network.
\<close>

theorem cache_ttl_counterexample:
  "fst read_B = Inr (Payload 42) \<and> snd read_B = snd read_A \<and> (1500 :: int) - 900 < cacheTTL
   \<and> fst read_C = Inr (Payload 44) \<and> length (network_calls (snd read_C)) = 2
   \<and> fst read_204 = Inr EmptyObject \<and> (1 :: int) - 0 < cacheTTL
   \<and> length (network_calls (snd read_after_204)) = 2"
  by (simp add: read_A_def read_B_def read_C_def read_204_def read_after_204_def
        request_def client0_def ok_response_def no_content_def is_get_def cache_hit_def
        cacheKey_def method_or_GET_def cacheTTL_def Let_def)

lemma cache_hit_entry:
  "cache_hit t (Some \<lparr>data = d, timestamp = ts\<rparr>) = (if t - ts < cacheTTL then Some d else None)"
  by (simp add: cache_hit_def)

lemma request_204_keeps_cache:
  "ok r \<Longrightarrow> status r = 204 \<Longrightarrow>
     requestCache (snd (request t1 ts (Responded r) endpoint m c)) = requestCache c"
  by (simp add: request_def Let_def split: option.splits)

text \<open>
  \<open>invalidateCache\<close> and \<open>clearCache\<close> remove entries: a read that follows them inside the
  time to live goes to the network.
\<close>

lemma invalidateCache_removes:
  "includes_str key endpoint \<Longrightarrow> requestCache (invalidateCache endpoint c) key = None"
  by (simp add: invalidateCache_def)

lemma clearCache_removes: "requestCache (clearCache c) key = None"
  by (simp add: clearCache_def)

lemma read_after_invalidate:
  "network_calls (snd (request 500 500 (Responded (ok_response 43)) ''/api/resolume/status'' None
       (invalidateCache ''/api/resolume/status'' (snd read_A))))
     = [(None, ''/api/resolume/status''), (None, ''/api/resolume/status'')]"
  by (simp add: read_A_def request_def invalidateCache_def client0_def ok_response_def is_get_def
        cache_hit_def cacheKey_def method_or_GET_def Let_def)

text \<open>
  C7, amended. GET-equivalent requests of one URL share one key. A GET-equivalent request
  answered by the network with a decoded payload stores that payload under the key, with
  the time \<open>ts\<close> read when it was decoded. Whenever the entry under the key holds payload
  \<open>d\<close> and time \<open>ts\<close>, a GET-equivalent request of that URL made at time \<open>t2\<close> returns \<open>d\<close>
  and leaves the client as it was (no network call, the entry and its time unchanged) if
  \<open>t2 - ts < cacheTTL\<close>, and goes to the network if \<open>t2 - ts \<ge> cacheTTL\<close>. A request
  answered with 204 leaves the cache as it was.
\<close>

theorem cache_ttl:
  assumes "is_get m" and "is_get m2"
  shows "cacheKey m url = cacheKey m2 url
       \<and> (request t1 ts net endpoint m c = (Inr (Payload d), c1)
            \<and> network_calls c1 = network_calls c @ [(m, baseUrl c @ endpoint)] \<longrightarrow>
              baseUrl c1 = baseUrl c
            \<and> requestCache c1 (cacheKey m (baseUrl c @ endpoint))
                = Some \<lparr>data = d, timestamp = ts\<rparr>)
       \<and> (requestCache c2 (cacheKey m2 (baseUrl c2 @ endpoint))
              = Some \<lparr>data = d, timestamp = ts\<rparr> \<longrightarrow>
            (t2 - ts < cacheTTL \<longrightarrow>
               request t2 ts2 net2 endpoint m2 c2 = (Inr (Payload d), c2))
          \<and> (t2 - ts \<ge> cacheTTL \<longrightarrow>
               network_calls (snd (request t2 ts2 net2 endpoint m2 c2))
                 = network_calls c2 @ [(m2, baseUrl c2 @ endpoint)]))
       \<and> (ok r \<and> status r = 204 \<longrightarrow>
            requestCache (snd (request t1 ts (Responded r) endpoint m c)) = requestCache c)"
proof (intro conjI impI)
  show "cacheKey m url = cacheKey m2 url"
    using assms by (simp add: cacheKey_get)
next
  assume a: "request t1 ts net endpoint m c = (Inr (Payload d), c1)
               \<and> network_calls c1 = network_calls c @ [(m, baseUrl c @ endpoint)]"
  with request_fetched_stores [OF assms(1), of t1 ts net endpoint c d c1]
  show "baseUrl c1 = baseUrl c"
    and "requestCache c1 (cacheKey m (baseUrl c @ endpoint)) = Some \<lparr>data = d, timestamp = ts\<rparr>"
    using assms(1) by (simp_all add: cacheKey_get)
next
  assume e: "requestCache c2 (cacheKey m2 (baseUrl c2 @ endpoint)) = Some \<lparr>data = d, timestamp = ts\<rparr>"
    and t: "t2 - ts < cacheTTL"
  show "request t2 ts2 net2 endpoint m2 c2 = (Inr (Payload d), c2)"
    using assms(2) e t by (simp add: request_def Let_def cache_hit_entry)
next
  assume e: "requestCache c2 (cacheKey m2 (baseUrl c2 @ endpoint)) = Some \<lparr>data = d, timestamp = ts\<rparr>"
    and t: "cacheTTL \<le> t2 - ts"
  show "network_calls (snd (request t2 ts2 net2 endpoint m2 c2))
          = network_calls c2 @ [(m2, baseUrl c2 @ endpoint)]"
    using assms(2) e t
    by (auto simp: request_def Let_def cache_hit_entry split: fetch_outcome.splits sum.splits)
next
  assume "ok r \<and> status r = 204"
  then show "requestCache (snd (request t1 ts (Responded r) endpoint m c)) = requestCache c"
    by (simp add: request_204_keeps_cache)
qed

text \<open>
  The theorem at the status endpoint: a first read at 0, stored at 7; a read at 500 is
  served from the cache; so is a read at 900 of the client the read at 500 left; a read
  at 1007 goes to the network; a 204 leaves the cache empty.
\<close>

theorem cache_ttl_witness:
  "cacheKey None ''/api/resolume/status'' = cacheKey (Some ''GET'') ''/api/resolume/status''
   \<and> requestCache (snd (request 0 7 (Responded (ok_response 42)) ''/api/resolume/status'' None client0))
        ''GET_/api/resolume/status'' = Some \<lparr>data = 42, timestamp = 7\<rparr>
   \<and> request 500 600 (Rejected ''down'') ''/api/resolume/status'' (Some ''GET'')
       (snd (request 0 7 (Responded (ok_response 42)) ''/api/resolume/status'' None client0))
     = (Inr (Payload 42),
        snd (request 0 7 (Responded (ok_response 42)) ''/api/resolume/status'' None client0))
   \<and> network_calls (snd (request 1007 1100 (Rejected ''down'') ''/api/resolume/status'' (Some ''GET'')
       (snd (request 0 7 (Responded (ok_response 42)) ''/api/resolume/status'' None client0))))
     = [(None, ''/api/resolume/status''), (Some ''GET'', ''/api/resolume/status'')]
   \<and> requestCache (snd read_204) = Map.empty"
proof -
  let ?c1 = "snd (request 0 7 (Responded (ok_response 42)) ''/api/resolume/status'' None client0)"
  have g1: "is_get None" and g2: "is_get (Some ''GET'')"
    by (simp_all add: is_get_def)
  have r: "request 0 7 (Responded (ok_response 42)) ''/api/resolume/status'' None client0
             = (Inr (Payload 42), ?c1)
           \<and> network_calls ?c1
             = network_calls client0 @ [(None, baseUrl client0 @ ''/api/resolume/status'')]"
    by (simp add: request_def client0_def ok_response_def is_get_def cache_hit_def Let_def)
  have k: "cacheKey None ''/api/resolume/status'' = ''GET_/api/resolume/status''"
    "cacheKey (Some ''GET'') ''/api/resolume/status'' = ''GET_/api/resolume/status''"
    by (simp_all add: cacheKey_def method_or_GET_def)
  have b: "baseUrl client0 = []" "network_calls client0 = []" "requestCache client0 = Map.empty"
    by (simp_all add: client0_def)
  have t: "(500 :: int) - 7 < cacheTTL" "(1007 :: int) - 7 \<ge> cacheTTL"
    by (simp_all add: cacheTTL_def)
  have n: "ok no_content \<and> status no_content = 204"
    by (simp add: no_content_def)
  note w = cache_ttl [OF g1 g2, where url = "''/api/resolume/status''" and ?t1.0 = 0 and ts = 7
      and net = "Responded (ok_response 42)" and endpoint = "''/api/resolume/status''"
      and c = client0 and d = 42 and ?c1.0 = ?c1 and ?c2.0 = ?c1 and ?t2.0 = 500 and ?ts2.0 = 600
      and ?net2.0 = "Rejected ''down''" and r = no_content]
  from w r have s: "baseUrl ?c1 = []"
    "requestCache ?c1 ''GET_/api/resolume/status'' = Some \<lparr>data = 42, timestamp = 7\<rparr>"
    by (simp_all add: k b)
  from w s t(1) have h: "request 500 600 (Rejected ''down'') ''/api/resolume/status'' (Some ''GET'') ?c1
      = (Inr (Payload 42), ?c1)"
    by (simp add: k)
  from cache_ttl [OF g1 g2, where url = "''/api/resolume/status''" and ?t1.0 = 0 and ts = 7
      and net = "Responded (ok_response 42)" and endpoint = "''/api/resolume/status''"
      and c = client0 and d = 42 and ?c1.0 = ?c1 and ?c2.0 = ?c1 and ?t2.0 = 1007 and ?ts2.0 = 1100
      and ?net2.0 = "Rejected ''down''" and r = no_content]
    s t(2) r
  have f: "network_calls (snd (request 1007 1100 (Rejected ''down'') ''/api/resolume/status''
      (Some ''GET'') ?c1)) = [(None, ''/api/resolume/status''), (Some ''GET'', ''/api/resolume/status'')]"
    by (simp add: k b)
  from cache_ttl [OF g1 g2, where url = "''/api/resolume/status''" and ?t1.0 = 0 and ts = 0
      and net = "Responded (ok_response 42)" and endpoint = "''/api/resolume/status''"
      and c = client0 and d = 42 and ?c1.0 = ?c1 and ?c2.0 = ?c1 and ?t2.0 = 500 and ?ts2.0 = 600
      and ?net2.0 = "Rejected ''down''" and r = no_content] n
  have z: "requestCache (snd read_204) = Map.empty"
    by (simp add: read_204_def b)
  show ?thesis
    using k s h f z by simp
qed

section \<open>Properties of the connection monitor\<close>

text \<open>
  C2, as stated, fails: a status check that succeeds and reports \<open>connected = false\<close>
  does not reset the interval. After one failure the interval is 3000, and such a check
  leaves it at 3000.
\<close>

theorem polling_interval_counterexample:
  "pollingIntervalRef (checkConnection (Inr status_down) (failures 1 connection_init)) = 3000
   \<and> pollingIntervalRef (checkConnection (Inr status_down) (failures 1 connection_init))
        \<noteq> SUCCESS_INTERVAL"
  by (simp add: checkConnection_def connection_init_def status_down_def fetch_failed_def
        INITIAL_INTERVAL_def MAX_INTERVAL_def BACKOFF_MULTIPLIER_def SUCCESS_INTERVAL_def)

text \<open>
  C2, amended. While the component is mounted: a status check that throws multiplies the
  interval by 1.5, capped at 30000; a check that reports \<open>connected = true\<close> sets it to
  5000; a check that reports \<open>connected = false\<close> leaves it as it is. The delay of a
  timer is the interval's value when the timer is set. From the initial state the
  interval is 2000, 3000, 4500, 6750 after 0, 1, 2, 3 consecutive failures, and 30000
  after 8.
\<close>

theorem polling_interval:
  assumes "isMountedRef_conn s"
  shows "pollingIntervalRef (checkConnection (Inl err) s)
           = min (pollingIntervalRef s * (3 / 2)) 30000
     \<and> (connected st \<longrightarrow> pollingIntervalRef (checkConnection (Inr st) s) = 5000)
     \<and> (\<not> connected st \<longrightarrow>
          pollingIntervalRef (checkConnection (Inr st) s) = pollingIntervalRef s)
     \<and> snd (last (pending_conn (scheduleNextCheck s))) = pollingIntervalRef s
     \<and> map (\<lambda>n. pollingIntervalRef (failures n connection_init)) [0, 1, 2, 3]
          = [2000, 3000, 4500, 6750]
     \<and> pollingIntervalRef (failures 8 connection_init) = 30000"
  using assms
  by (simp add: checkConnection_def connection_init_def scheduleNextCheck_def fetch_failed_def
        INITIAL_INTERVAL_def MAX_INTERVAL_def BACKOFF_MULTIPLIER_def SUCCESS_INTERVAL_def
        eval_nat_numeral)

theorem polling_interval_witness:
  "isMountedRef_conn connection_init
   \<and> pollingIntervalRef (checkConnection (Inl fetch_failed) connection_init) = 3000
   \<and> pollingIntervalRef (checkConnection (Inr status_up) connection_init) = 5000
   \<and> pollingIntervalRef (checkConnection (Inr status_down) connection_init) = 2000"
proof -
  have m: "isMountedRef_conn connection_init"
    by (simp add: connection_init_def)
  from polling_interval [OF m, of fetch_failed status_up]
       polling_interval [OF m, of fetch_failed status_down]
  show ?thesis
    using m by (simp add: connection_init_def INITIAL_INTERVAL_def status_up_def status_down_def)
qed

text \<open>
  The first check of the effect is not chained to the timers, yet it changes the
  interval too: when it and the first polled check both throw, the timers set are given
  2000 and then 4500.
\<close>

lemma mount_flow_delays:
  "map snd (pending_conn (setup_conn connection_init)) = [2000]
   \<and> map snd (pending_conn
        (polled_check (Inl fetch_failed)
          (timer_fires_conn 1 (checkConnection (Inl fetch_failed) (setup_conn connection_init)))))
      = [4500]"
  by (simp add: setup_conn_def polled_check_def timer_fires_conn_def clearTimeout_conn_def
        scheduleNextCheck_def checkConnection_def connection_init_def fetch_failed_def
        INITIAL_INTERVAL_def MAX_INTERVAL_def BACKOFF_MULTIPLIER_def)


section \<open>Properties of the clip reconciler\<close>

lemmas clips_loaded_simps = clips_loaded_def fetchClips_settle_def fetchClips_begin_def
  clips_init_def four_clips_def clip_def Let_def

lemma first_connected:
  assumes "i < length cs" and "P (cs ! i)" and "\<forall>j<i. \<not> P (cs ! j)"
  shows "find P cs = Some (cs ! i) \<and> findIndex P cs = int i"
  using assms
proof (induction cs arbitrary: i)
  case Nil
  then show ?case by simp
next
  case (Cons c cs)
  show ?case
  proof (cases i)
    case 0
    with Cons.prems show ?thesis by simp
  next
    case (Suc k)
    with Cons.prems have "\<not> P c" by auto
    moreover from Cons.prems Suc have "k < length cs" "P (cs ! k)" "\<forall>j<k. \<not> P (cs ! j)"
      by auto
    ultimately show ?thesis
      using Cons.IH [of k] Suc by (simp add: Let_def)
  qed
qed

lemma none_connected: "(\<forall>c\<in>set cs. \<not> P c) \<Longrightarrow> find P cs = None"
  by (induction cs) auto


text \<open>
  C4. A fetched clip list \<open>cs\<close> applied to a mounted reconciler: when \<open>i\<close> is the first
  position whose entry is connected, the active id is that entry's id and the active
  index and the selection are both \<open>i + 1\<close>, whatever the selection was; when no entry is
  connected the active id and index are cleared and the selection is what it was.
\<close>

theorem active_clip_derivation:
  assumes "isMountedRef_clips s"
  shows "(i < length cs \<and> isConnected (cs ! i) \<and> (\<forall>j<i. \<not> isConnected (cs ! j)) \<longrightarrow>
            activeClipId (fetchClips_settle layer (Inr (Some (Some cs))) s) = Some (clip_id (cs ! i))
          \<and> activeClipIndex (fetchClips_settle layer (Inr (Some (Some cs))) s) = Some (int i + 1)
          \<and> selectedClipIndex (fetchClips_settle layer (Inr (Some (Some cs))) s) = Some (int i + 1))
       \<and> ((\<forall>c\<in>set cs. \<not> isConnected c) \<longrightarrow>
            activeClipId (fetchClips_settle layer (Inr (Some (Some cs))) s) = None
          \<and> activeClipIndex (fetchClips_settle layer (Inr (Some (Some cs))) s) = None
          \<and> selectedClipIndex (fetchClips_settle layer (Inr (Some (Some cs))) s)
              = selectedClipIndex s)
       \<and> clips (fetchClips_settle layer (Inr (Some (Some cs))) s) = cs"
proof (intro conjI impI)
  assume "i < length cs \<and> isConnected (cs ! i) \<and> (\<forall>j<i. \<not> isConnected (cs ! j))"
  then have f: "find isConnected cs = Some (cs ! i)" "findIndex isConnected cs = int i"
    using first_connected [of i cs isConnected] by simp_all
  show "activeClipId (fetchClips_settle layer (Inr (Some (Some cs))) s) = Some (clip_id (cs ! i))"
    using assms f by (simp add: fetchClips_settle_def Let_def)
  show "activeClipIndex (fetchClips_settle layer (Inr (Some (Some cs))) s) = Some (int i + 1)"
    using assms f by (simp add: fetchClips_settle_def Let_def)
  show "selectedClipIndex (fetchClips_settle layer (Inr (Some (Some cs))) s) = Some (int i + 1)"
    using assms f by (simp add: fetchClips_settle_def Let_def)
next
  assume "\<forall>c\<in>set cs. \<not> isConnected c"
  then have f: "find isConnected cs = None"
    by (rule none_connected)
  show "activeClipId (fetchClips_settle layer (Inr (Some (Some cs))) s) = None"
    using assms f by (simp add: fetchClips_settle_def Let_def)
  show "activeClipIndex (fetchClips_settle layer (Inr (Some (Some cs))) s) = None"
    using assms f by (simp add: fetchClips_settle_def Let_def)
  show "selectedClipIndex (fetchClips_settle layer (Inr (Some (Some cs))) s) = selectedClipIndex s"
    using assms f by (simp add: fetchClips_settle_def Let_def)
next
  show "clips (fetchClips_settle layer (Inr (Some (Some cs))) s) = cs"
    using assms by (simp add: fetchClips_settle_def Let_def split: option.splits)
qed

theorem active_clip_derivation_witness:
  "isMountedRef_clips (selectClip (Some 2) clips_init)
   \<and> activeClipId (fetchClips_settle 1 (Inr (Some (Some four_clips))) (selectClip (Some 2) clips_init)) = Some 104
   \<and> activeClipIndex (fetchClips_settle 1 (Inr (Some (Some four_clips))) (selectClip (Some 2) clips_init)) = Some 4
   \<and> selectedClipIndex (fetchClips_settle 1 (Inr (Some (Some four_clips))) (selectClip (Some 2) clips_init)) = Some 4
   \<and> activeClipId (fetchClips_settle 1 (Inr (Some (Some [clip 101 False]))) (selectClip (Some 2) clips_init)) = None
   \<and> activeClipIndex (fetchClips_settle 1 (Inr (Some (Some [clip 101 False]))) (selectClip (Some 2) clips_init)) = None
   \<and> selectedClipIndex (fetchClips_settle 1 (Inr (Some (Some [clip 101 False]))) (selectClip (Some 2) clips_init)) = Some 2"
proof -
  have m: "isMountedRef_clips (selectClip (Some 2) clips_init)"
    by (simp add: selectClip_def clips_init_def)
  have a: "3 < length four_clips \<and> isConnected (four_clips ! 3)
             \<and> (\<forall>j<3. \<not> isConnected (four_clips ! j))"
    by (simp add: four_clips_def clip_def nth_Cons' less_Suc_eq eval_nat_numeral all_conj_distrib)
  have b: "\<forall>c\<in>set [clip 101 False]. \<not> isConnected c"
    by (simp add: clip_def)
  from active_clip_derivation [OF m, of 3 four_clips 1]
       active_clip_derivation [OF m, of 0 "[clip 101 False]" 1]
  show ?thesis
    using m a b by (simp add: four_clips_def clip_def selectClip_def)
qed

lemma active_pair_fetch_begin: "active_pair s \<Longrightarrow> active_pair (fetchClips_begin layer conn s)"
  by (simp add: active_pair_def fetchClips_begin_def)

lemma active_pair_fetch_settle: "active_pair s \<Longrightarrow> active_pair (fetchClips_settle layer r s)"
  by (auto simp: active_pair_def fetchClips_settle_def Let_def split: sum.splits option.splits)

lemma active_pair_trigger_begin:
  "active_pair s \<Longrightarrow> triggerClip_begin layer conn i s = Inr s' \<Longrightarrow> active_pair s'"
  by (auto simp: active_pair_def triggerClip_begin_def Let_def split: if_splits option.splits)

lemma active_pair_clear_begin:
  "active_pair s \<Longrightarrow> clearLayer_begin layer conn s = Inr s' \<Longrightarrow> active_pair s'"
  by (auto simp: active_pair_def clearLayer_begin_def split: if_splits)

lemma active_pair_step:
  "active_pair s \<Longrightarrow> active_pair (clips_step layer conn e s)"
proof (cases e)
  case FetchBegin
  assume "active_pair s"
  with FetchBegin show ?thesis by (simp add: active_pair_fetch_begin)
next
  case (FetchSettle r)
  assume "active_pair s"
  with FetchSettle show ?thesis by (simp add: active_pair_fetch_settle)
next
  case (SelectClip i)
  assume "active_pair s"
  with SelectClip show ?thesis by (simp add: active_pair_def selectClip_def)
next
  case (TriggerBegin i)
  assume "active_pair s"
  with TriggerBegin show ?thesis
    by (auto split: sum.splits dest: active_pair_trigger_begin)
next
  case (TriggerSettle r)
  assume "active_pair s"
  with TriggerSettle show ?thesis
    by (auto simp: triggerClip_settle_def active_pair_fetch_begin split: sum.splits)
      (simp add: active_pair_def)
next
  case ClearBegin
  assume "active_pair s"
  with ClearBegin show ?thesis
    by (auto split: sum.splits dest: active_pair_clear_begin)
next
  case (ClearSettle r)
  assume "active_pair s"
  with ClearSettle show ?thesis
    by (auto simp: clearLayer_settle_def active_pair_fetch_begin split: sum.splits)
      (simp add: active_pair_def)
next
  case (TimeoutFires d)
  assume "active_pair s"
  then have "active_pair (s\<lparr>timeouts_clips := remove1 d (timeouts_clips s)\<rparr>)"
    by (simp add: active_pair_def)
  with TimeoutFires show ?thesis
    by (simp add: timeout_fires_def Let_def active_pair_fetch_begin)
next
  case (Setup i)
  assume "active_pair s"
  then have "active_pair (fetchClips_begin layer conn (s\<lparr>isMountedRef_clips := True\<rparr>))"
    by (intro active_pair_fetch_begin) (simp add: active_pair_def)
  with Setup show ?thesis
    by (auto simp: setup_clips_def Let_def active_pair_def)
next
  case Cleanup
  assume "active_pair s"
  with Cleanup show ?thesis by (simp add: active_pair_def cleanup_clips_def Let_def)
next
  case LayerChanged
  assume "active_pair s"
  with LayerChanged show ?thesis by (simp add: active_pair_def layer_changed_def)
qed

lemma active_pair_init: "active_pair clips_init"
  by (simp add: active_pair_def clips_init_def)

text \<open>Hence the pairing holds after any sequence of events from the initial state.\<close>

lemma active_pair_reachable:
  "active_pair (foldl (\<lambda>s e. clips_step layer conn e s) clips_init es)"
proof (induction es rule: rev_induct)
  case Nil
  show ?case by (simp add: active_pair_init)
next
  case (snoc e es)
  then show ?case by (simp add: active_pair_step)
qed

text \<open>
  C9. The active clip id and the active clip index are both null or both set: this holds
  of the initial state, and whatever happens to the reconciler (a fetch starting or
  settling, a selection, a trigger or a clear starting or settling, a delayed refetch,
  the effects), a state where it holds is followed by a state where it holds.
\<close>

theorem active_pair_preserved:
  "active_pair clips_init \<and> (active_pair s \<longrightarrow> active_pair (clips_step layer conn e s))"
  by (simp add: active_pair_init active_pair_step)

theorem active_pair_preserved_witness:
  "active_pair clips_loaded
   \<and> active_pair (clips_step 1 True (TriggerBegin 2) clips_loaded)
   \<and> activeClipId (clips_step 1 True (TriggerBegin 2) clips_loaded) = Some 102
   \<and> activeClipIndex (clips_step 1 True (TriggerBegin 2) clips_loaded) = Some 2
   \<and> active_pair (clips_step 1 True ClearBegin clips_loaded)
   \<and> activeClipId (clips_step 1 True ClearBegin clips_loaded) = None"
proof -
  have a: "active_pair clips_loaded"
    by (simp add: active_pair_def clips_loaded_simps)
  from active_pair_preserved [of clips_loaded 1 True "TriggerBegin 2"]
       active_pair_preserved [of clips_loaded 1 True ClearBegin]
  show ?thesis
    using a
    by (simp add: clips_loaded_simps triggerClip_begin_def clearLayer_begin_def array_get_def)
qed




section \<open>Properties of the parameter controller\<close>

lemma request_post_calls:
  "network_calls (snd (request t1 t2 net endpoint (Some ''POST'') c))
     = network_calls c @ [(Some ''POST'', baseUrl c @ endpoint)]"
  by (auto simp: request_def is_get_def Let_def split: fetch_outcome.splits sum.splits)

lemma snd_drop_reply:
  "snd (case r of (Inl e, c') \<Rightarrow> (Inl e, c') | (Inr x, c') \<Rightarrow> (Inr (), c')) = snd r"
  by (cases r) (auto split: sum.splits)

text \<open>
  \<open>passes_check\<close> is the client's own check: a write passes it exactly when the client's
  operation makes a network call.
\<close>

lemma passes_check_client:
  "passes_check (SetBpmCall v)
     = (network_calls (snd (setBpm num t1 t2 net v c)) \<noteq> network_calls c)"
  "passes_check (SetLayerOpacityCall l v)
     = (network_calls (snd (setLayerOpacity num t1 t2 net l v c)) \<noteq> network_calls c)"
  "passes_check (SetClipPositionCall l i v)
     = (network_calls (snd (setClipPosition num t1 t2 net l i v c)) \<noteq> network_calls c)"
  by (simp_all add: setBpm_def setLayerOpacity_def setClipPosition_def snd_drop_reply
        request_post_calls)

lemmas bpm_in_flight_simps = bpm_in_flight_def advance_def setBpm_hook_def controls_init_def
  clear_ref_def setTimeout_def DEBOUNCE_DELAY_def commit_begin_def set_loading_def Let_def

text \<open>
  C8. \<open>setScrubPosition\<close> returns the state it was given (display value, error, timers,
  refs and trace of writes included) whenever the connection is down, or the active clip
  id is null, or the active clip index is null.
\<close>

theorem scrub_gate:
  "\<not> isConnected_opt opts \<or> activeClipId_opt opts = None \<or> activeClipIndex_opt opts = None
     \<Longrightarrow> setScrubPosition opts v s = s"
  by (auto simp: setScrubPosition_def falsy_def)

theorem scrub_gate_witness:
  "setScrubPosition disconnected (1 / 2) bpm_in_flight = bpm_in_flight
   \<and> setScrubPosition gate_shut (1 / 2) bpm_in_flight = bpm_in_flight
   \<and> isConnected_opt gate_shut \<and> activeClipId_opt gate_shut = None
   \<and> isConnected_opt disconnected = False"
  using scrub_gate [of disconnected "1 / 2" bpm_in_flight]
        scrub_gate [of gate_shut "1 / 2" bpm_in_flight]
  by (simp add: disconnected_def gate_shut_def)

lemma foldl_commit_begin:
  "pending (foldl (\<lambda>s' (h, t, w). commit_begin w s') s0 xs) = pending s0
   \<and> next_handle (foldl (\<lambda>s' (h, t, w). commit_begin w s') s0 xs) = next_handle s0
   \<and> clock (foldl (\<lambda>s' (h, t, w). commit_begin w s') s0 xs) = clock s0
   \<and> bpmTimeoutRef (foldl (\<lambda>s' (h, t, w). commit_begin w s') s0 xs) = bpmTimeoutRef s0
   \<and> opacityTimeoutRef (foldl (\<lambda>s' (h, t, w). commit_begin w s') s0 xs) = opacityTimeoutRef s0
   \<and> scrubTimeoutRef (foldl (\<lambda>s' (h, t, w). commit_begin w s') s0 xs) = scrubTimeoutRef s0
   \<and> bpm (foldl (\<lambda>s' (h, t, w). commit_begin w s') s0 xs) = bpm s0
   \<and> opacity (foldl (\<lambda>s' (h, t, w). commit_begin w s') s0 xs) = opacity s0
   \<and> scrubPosition (foldl (\<lambda>s' (h, t, w). commit_begin w s') s0 xs) = scrubPosition s0
   \<and> api_calls (foldl (\<lambda>s' (h, t, w). commit_begin w s') s0 xs)
        = api_calls s0 @ map (\<lambda>(h, t, w). w) xs"
proof (induction xs arbitrary: s0)
  case Nil
  show ?case by simp
next
  case (Cons x xs)
  obtain h t w where x: "x = (h, t, w)" by (cases x)
  show ?case
    using Cons.IH [of "commit_begin w s0"]
    by (cases "control_of w") (simp_all add: x commit_begin_def set_loading_def)
qed

lemma advance_fields:
  "pending (advance d s) = filter (\<lambda>(h, t, w). \<not> t \<le> clock s + d) (pending s)"
  "next_handle (advance d s) = next_handle s"
  "clock (advance d s) = clock s + d"
  "timeout_ref k (advance d s) = timeout_ref k s"
  "display k (advance d s) = display k s"
  "api_calls (advance d s)
     = api_calls s @ map (\<lambda>(h, t, w). w) (filter (\<lambda>(h, t, w). t \<le> clock s + d) (pending s))"
  by (cases k; simp add: advance_def Let_def foldl_commit_begin timeout_ref_def display_def)+

lemma wf_advance: "wf_timers s \<Longrightarrow> wf_timers (advance d s)"
  by (auto simp: wf_timers_def advance_fields list_all_iff distinct_map_filter)

lemma writes_advance:
  "writes k (advance d s)
     = writes k s @ map (\<lambda>(h, t, w). w) (filter (\<lambda>(h, t, w). t \<le> clock s + d) (pending_of k s))"
proof -
  have "filter (\<lambda>w. control_of w = k) (map (\<lambda>(h, t, w). w) xs)
          = map (\<lambda>(h, t, w). w) (filter (\<lambda>(h, t, w). control_of w = k) xs)" for xs :: "(nat \<times> nat \<times> write_call) list"
    by (induction xs) auto
  moreover have "filter (\<lambda>(h, t, w). control_of w = k) (filter (\<lambda>(h, t, w). t \<le> clock s + d) (pending s))
      = filter (\<lambda>(h, t, w). t \<le> clock s + d) (filter (\<lambda>(h, t, w). control_of w = k) (pending s))"
    by (induction "pending s") (auto simp: filter_filter conj_commute intro: filter_cong)
  ultimately show ?thesis
    by (simp add: writes_def advance_fields pending_of_def)
qed

lemma pending_of_advance:
  "pending_of k (advance d s) = filter (\<lambda>(h, t, w). \<not> t \<le> clock s + d) (pending_of k s)"
  by (auto simp: pending_of_def advance_fields filter_filter conj_commute intro: filter_cong)


lemma control_of_commit_of: "control_of (commit_of k opts v) = k"
  by (cases k) (simp_all add: commit_of_def)

lemma call_setter_fields:
  assumes "gate_open k opts"
  shows "pending (call_setter k opts v s)
           = filter (\<lambda>(h', t, w). Some h' \<noteq> timeout_ref k s) (pending s)
               @ [(next_handle s, clock s + DEBOUNCE_DELAY, commit_of k opts v)]"
    and "next_handle (call_setter k opts v s) = Suc (next_handle s)"
    and "clock (call_setter k opts v s) = clock s"
    and "timeout_ref k' (call_setter k opts v s)
           = (if k' = k then Some (next_handle s) else timeout_ref k' s)"
    and "display k (call_setter k opts v s) = v"
    and "api_calls (call_setter k opts v s) = api_calls s"
  using assms
  by (cases k; cases k';
      auto simp: call_setter_def setBpm_hook_def setOpacity_hook_def setScrubPosition_def
        gate_open_def clear_ref_def clearTimeout_def setTimeout_def timeout_ref_def display_def
        commit_of_def Let_def
      split: option.splits intro: filter_cong)+

lemma wf_call_setter:
  assumes "wf_timers s" and "gate_open k opts"
  shows "wf_timers (call_setter k opts v s)"
  using assms(1)
  by (auto simp: wf_timers_def call_setter_fields [OF assms(2)] list_all_iff
        control_of_commit_of distinct_map_filter)

lemma pending_of_call_setter:
  assumes "wf_timers s" and "gate_open k opts"
  shows "pending_of k (call_setter k opts v s)
           = [(next_handle s, clock s + DEBOUNCE_DELAY, commit_of k opts v)]"
proof -
  have "filter (\<lambda>(h, t, w). control_of w = k)
          (filter (\<lambda>(h', t, w). Some h' \<noteq> timeout_ref k s) (pending s)) = []"
    using assms(1) by (auto simp: wf_timers_def list_all_iff filter_empty_conv)
  then show ?thesis
    by (simp add: pending_of_def call_setter_fields [OF assms(2)] control_of_commit_of)
qed


lemma writes_call_setter:
  "gate_open k opts \<Longrightarrow> writes k' (call_setter k opts v s) = writes k' s"
  by (simp add: writes_def call_setter_fields)

lemma burst_invariant:
  assumes "gate_open k opts"
    and "\<forall>(g, v)\<in>set rest. g < DEBOUNCE_DELAY"
    and "wf_timers s"
    and "pending_of k s = [(h, clock s + DEBOUNCE_DELAY, commit_of k opts v0)]"
    and "display k s = v0"
  shows "wf_timers (burst k opts rest s)
       \<and> (\<exists>h'. pending_of k (burst k opts rest s)
                 = [(h', clock (burst k opts rest s) + DEBOUNCE_DELAY,
                     commit_of k opts (last (v0 # map snd rest)))])
       \<and> display k (burst k opts rest s) = last (v0 # map snd rest)
       \<and> writes k (burst k opts rest s) = writes k s"
  using assms(2-)
proof (induction rest arbitrary: s h v0)
  case Nil
  then show ?case by auto
next
  case (Cons x rest)
  obtain g v where x: "x = (g, v)" by (cases x)
  let ?s1 = "advance g s"
  let ?s2 = "call_setter k opts v ?s1"
  from Cons.prems(1) x have g: "g < DEBOUNCE_DELAY"
    and rest: "\<forall>(g, v)\<in>set rest. g < DEBOUNCE_DELAY"
    by auto
  have wf1: "wf_timers ?s1"
    using Cons.prems(2) by (rule wf_advance)
  have w1: "writes k ?s1 = writes k s"
    using g by (simp add: writes_advance Cons.prems(3))
  have wf2: "wf_timers ?s2"
    using wf1 assms(1) by (rule wf_call_setter)
  have p2: "pending_of k ?s2 = [(next_handle ?s1, clock ?s2 + DEBOUNCE_DELAY, commit_of k opts v)]"
    using wf1 assms(1) by (simp add: pending_of_call_setter call_setter_fields)
  have d2: "display k ?s2 = v"
    using assms(1) by (simp add: call_setter_fields)
  have w2: "writes k ?s2 = writes k s"
    using assms(1) w1 by (simp add: writes_call_setter)
  from Cons.IH [OF rest wf2 p2 d2] w2
  show ?case
    by (simp add: x)
qed

text \<open>
  C3, amended. Take a setter whose gate is open (always for BPM and opacity; for scrub
  when connected with an active clip id and index), timers well formed, a first call
  with \<open>v0\<close> and then the calls of \<open>rest\<close>, each less than 150 ms after the one before.
  After every call the displayed value is the value just supplied. After the burst
  exactly one commit of that control is pending, carrying the last value, and no write
  of that control has been made during the burst. Once 150 ms or more have passed, exactly
  one write of that control has been added, the client operation called with the last
  value; it reaches the network exactly when that value passes the client's range check.
\<close>

theorem debounce_coalescing:
  assumes "wf_timers s" and "gate_open k opts"
    and "\<forall>(g, v)\<in>set rest. g < DEBOUNCE_DELAY"
    and "DEBOUNCE_DELAY \<le> d"
  shows "(\<forall>n. display k (burst k opts (take n rest) (call_setter k opts v0 s))
                = last (v0 # map snd (take n rest)))
       \<and> map (\<lambda>(h, t, w). w) (pending_of k (burst k opts rest (call_setter k opts v0 s)))
            = [commit_of k opts (last (v0 # map snd rest))]
       \<and> writes k (burst k opts rest (call_setter k opts v0 s)) = writes k s
       \<and> writes k (advance d (burst k opts rest (call_setter k opts v0 s)))
            = writes k s @ [commit_of k opts (last (v0 # map snd rest))]
       \<and> network_writes k (advance d (burst k opts rest (call_setter k opts v0 s)))
            = network_writes k s
                @ (if passes_check (commit_of k opts (last (v0 # map snd rest)))
                   then [commit_of k opts (last (v0 # map snd rest))] else [])"
proof -
  let ?a = "call_setter k opts v0 s"
  let ?b = "burst k opts rest ?a"
  let ?w = "commit_of k opts (last (v0 # map snd rest))"
  have wf0: "wf_timers ?a"
    using assms(1,2) by (rule wf_call_setter)
  have p0: "pending_of k ?a = [(next_handle s, clock ?a + DEBOUNCE_DELAY, commit_of k opts v0)]"
    using assms(1,2) by (simp add: pending_of_call_setter call_setter_fields)
  have d0: "display k ?a = v0"
    using assms(2) by (simp add: call_setter_fields)
  from burst_invariant [OF assms(2,3) wf0 p0 d0]
  obtain h' where p: "pending_of k ?b = [(h', clock ?b + DEBOUNCE_DELAY, ?w)]"
    and disp: "display k ?b = last (v0 # map snd rest)"
    and w: "writes k ?b = writes k s"
    using assms(2) by (auto simp: writes_call_setter)
  have fired: "writes k (advance d ?b) = writes k s @ [?w]"
    using assms(4) by (simp add: writes_advance p w)
  have each: "display k (burst k opts (take n rest) ?a) = last (v0 # map snd (take n rest))" for n
  proof -
    have "\<forall>(g, v)\<in>set (take n rest). g < DEBOUNCE_DELAY"
      using assms(3) by (auto dest: in_set_takeD)
    from burst_invariant [OF assms(2) this wf0 p0 d0]
    show ?thesis by simp
  qed
  show ?thesis
    using each p w fired by (simp add: network_writes_def)
qed

lemmas controls_eval = call_setter_def setBpm_hook_def setOpacity_hook_def setScrubPosition_def
  clear_ref_def clearTimeout_def setTimeout_def advance_def commit_begin_def set_loading_def
  controls_init_def DEBOUNCE_DELAY_def falsy_def Let_def

text \<open>
  C3, as stated, fails. With no active clip the calls of the scrub setter neither update
  the displayed position nor lead to any write. And a burst of the BPM setter that ends
  on 1000 leads to one call of the client's \<open>setBpm\<close>, which the client rejects before
  the network: no network write occurs.
\<close>

theorem debounce_coalescing_counterexample:
  "display Scrub (call_setter Scrub gate_shut (1 / 4) controls_init) = 0
   \<and> scrubPosition scrub_burst_shut = 0 \<and> api_calls scrub_burst_shut = []
   \<and> bpm bpm_burst_high = 1000 \<and> api_calls bpm_burst_high = [SetBpmCall 1000]
   \<and> network_writes Bpm bpm_burst_high = []"
  by (simp add: scrub_burst_shut_def bpm_burst_high_def gate_shut_def playing_def controls_eval
        display_def network_writes_def writes_def)

theorem debounce_coalescing_witness:
  "wf_timers controls_init \<and> gate_open Scrub playing
   \<and> display Bpm (burst Bpm playing [(40, 121)] (call_setter Bpm playing 120 controls_init)) = 121
   \<and> writes Bpm (burst Bpm playing [(40, 121), (149, 122)] (call_setter Bpm playing 120 controls_init)) = []
   \<and> writes Bpm (advance 150 (burst Bpm playing [(40, 121), (149, 122)] (call_setter Bpm playing 120 controls_init)))
        = [SetBpmCall 122]
   \<and> network_writes Bpm (advance 150 (burst Bpm playing [(40, 121), (149, 122)] (call_setter Bpm playing 120 controls_init)))
        = [SetBpmCall 122]
   \<and> writes Scrub (advance 150 (burst Scrub playing [(40, 1 / 2), (149, 3 / 4)] (call_setter Scrub playing (1 / 4) controls_init)))
        = [SetClipPositionCall 1 4 (3 / 4)]
   \<and> writes Opacity (advance 150 (burst Opacity playing [(40, 57)] (call_setter Opacity playing 50 controls_init)))
        = [SetLayerOpacityCall 1 (57 / 100)]"
proof -
  have wf: "wf_timers controls_init"
    by (simp add: wf_timers_def controls_init_def)
  have g: "gate_open Bpm playing" "gate_open Scrub playing" "gate_open Opacity playing"
    by (simp_all add: gate_open_def playing_def falsy_def)
  have r: "\<forall>(g, v)\<in>set [(40, 121), (149, 122 :: rat)]. g < DEBOUNCE_DELAY"
    "\<forall>(g, v)\<in>set [(40, 1 / 2), (149, 3 / 4 :: rat)]. g < DEBOUNCE_DELAY"
    "\<forall>(g, v)\<in>set [(40, 57 :: rat)]. g < DEBOUNCE_DELAY"
    by (simp_all add: DEBOUNCE_DELAY_def)
  have d: "DEBOUNCE_DELAY \<le> 150"
    by (simp add: DEBOUNCE_DELAY_def)
  have w0: "writes k controls_init = []" "network_writes k controls_init = []" for k
    by (simp_all add: writes_def network_writes_def controls_init_def)
  from debounce_coalescing [OF wf g(1) r(1) d, of 120]
  have bpm: "writes Bpm (burst Bpm playing [(40, 121), (149, 122)] (call_setter Bpm playing 120 controls_init)) = []"
    "writes Bpm (advance 150 (burst Bpm playing [(40, 121), (149, 122)] (call_setter Bpm playing 120 controls_init)))
        = [SetBpmCall 122]"
    "network_writes Bpm (advance 150 (burst Bpm playing [(40, 121), (149, 122)] (call_setter Bpm playing 120 controls_init)))
        = [SetBpmCall 122]"
    by (simp_all add: w0 commit_of_def)
  from debounce_coalescing [OF wf g(1) r(1) d, of 120, THEN conjunct1, THEN spec, of 1]
  have first: "display Bpm (burst Bpm playing [(40, 121)] (call_setter Bpm playing 120 controls_init)) = 121"
    by simp
  from debounce_coalescing [OF wf g(2) r(2) d, of "1 / 4"]
  have scrub: "writes Scrub (advance 150 (burst Scrub playing [(40, 1 / 2), (149, 3 / 4)] (call_setter Scrub playing (1 / 4) controls_init)))
        = [SetClipPositionCall 1 4 (3 / 4)]"
    by (simp add: w0 commit_of_def playing_def)
  from debounce_coalescing [OF wf g(3) r(3) d, of 50]
  have op: "writes Opacity (advance 150 (burst Opacity playing [(40, 57)] (call_setter Opacity playing 50 controls_init)))
        = [SetLayerOpacityCall 1 (57 / 100)]"
    by (simp add: w0 commit_of_def playing_def)
  show ?thesis
    using wf g bpm first scrub op by simp
qed

text \<open>
  The timers are well formed in the initial state and stay so whatever happens: the
  hypothesis of C3 holds of every state the controller can reach.
\<close>

lemma call_setter_gate_shut: "\<not> gate_open k opts \<Longrightarrow> call_setter k opts v s = s"
  by (cases k) (auto simp: gate_open_def call_setter_def setScrubPosition_def)

lemma wf_timers_cong:
  assumes "pending s' = pending s" and "next_handle s' = next_handle s"
    and "bpmTimeoutRef s' = bpmTimeoutRef s" and "opacityTimeoutRef s' = opacityTimeoutRef s"
    and "scrubTimeoutRef s' = scrubTimeoutRef s"
  shows "wf_timers s' = wf_timers s"
proof -
  have "timeout_ref k s' = timeout_ref k s" for k
    using assms(3-5) by (cases k) (simp_all add: timeout_ref_def)
  then show ?thesis
    using assms(1,2) by (simp add: wf_timers_def)
qed

lemma wf_commit_settle: "wf_timers s \<Longrightarrow> wf_timers (commit_settle k r s)"
proof -
  have "wf_timers (commit_settle k r s) = wf_timers s"
    by (rule wf_timers_cong; cases k; cases r)
      (simp_all add: commit_settle_def setError_late_def set_loading_def Let_def)
  then show "wf_timers s \<Longrightarrow> wf_timers (commit_settle k r s)"
    by simp
qed

lemma wf_clear_ref: "wf_timers s \<Longrightarrow> wf_timers (clear_ref r s)"
proof (cases r)
  case None
  assume "wf_timers s"
  with None show ?thesis by (simp add: clear_ref_def)
next
  case (Some h)
  have t: "timeout_ref k (clearTimeout h s) = timeout_ref k s" for k
    by (cases k) (simp_all add: timeout_ref_def clearTimeout_def)
  assume "wf_timers s"
  then have "wf_timers (clearTimeout h s)"
    unfolding wf_timers_def t
    by (auto simp: clearTimeout_def list_all_iff distinct_map_filter)
  with Some show ?thesis by (simp add: clear_ref_def)
qed

lemma wf_unmount: "wf_timers s \<Longrightarrow> wf_timers (unmount_ctl s)"
proof -
  assume "wf_timers s"
  moreover have "wf_timers (s\<lparr>isMountedRef_ctl := False\<rparr>) = wf_timers s"
    by (rule wf_timers_cong) simp_all
  ultimately show ?thesis
    by (simp add: unmount_ctl_def Let_def wf_clear_ref)
qed

lemma wf_controls_step: "wf_timers s \<Longrightarrow> wf_timers (controls_step e s)"
proof (cases e)
  case (Call k opts v)
  assume "wf_timers s"
  with Call show ?thesis
    by (cases "gate_open k opts") (simp_all add: wf_call_setter call_setter_gate_shut)
next
  case (Advance d)
  assume "wf_timers s"
  with Advance show ?thesis by (simp add: wf_advance)
next
  case (Settle k r)
  assume "wf_timers s"
  with Settle show ?thesis by (simp add: wf_commit_settle)
next
  case Unmount
  assume "wf_timers s"
  with Unmount show ?thesis by (simp add: wf_unmount)
qed

lemma wf_controls_reachable:
  "wf_timers (foldl (\<lambda>s e. controls_step e s) controls_init es)"
proof (induction es rule: rev_induct)
  case Nil
  show ?case by (simp add: wf_timers_def controls_init_def)
next
  case (snoc e es)
  then show ?case by (simp add: wf_controls_step)
qed

section \<open>The continuations after teardown\<close>

text \<open>
  With the flag down the continuation of \<open>checkConnection\<close>, the continuation of
  \<open>fetchClips\<close> and the continuation of a debounce callback change nothing, and a delayed
  refetch only leaves the list of timers. A polled check does not apply what the request
  settled to, but still sets the next timer.
\<close>

lemma checkConnection_unmounted: "\<not> isMountedRef_conn s \<Longrightarrow> checkConnection r s = s"
  by (simp add: checkConnection_def)

lemma polled_check_unmounted:
  "\<not> isMountedRef_conn s \<Longrightarrow> polled_check r s = scheduleNextCheck s"
  by (simp add: polled_check_def checkConnection_def)

lemma fetchClips_settle_unmounted: "\<not> isMountedRef_clips s \<Longrightarrow> fetchClips_settle layer r s = s"
  by (simp add: fetchClips_settle_def)

lemma timeout_fires_unmounted:
  "\<not> isMountedRef_clips s \<Longrightarrow>
     timeout_fires layer conn d s = s\<lparr>timeouts_clips := remove1 d (timeouts_clips s)\<rparr>"
  by (simp add: timeout_fires_def Let_def)

lemma commit_settle_unmounted: "\<not> isMountedRef_ctl s \<Longrightarrow> commit_settle k r s = s"
  by (cases r) (simp_all add: commit_settle_def setError_late_def)

lemma commit_settle_torn_down:
  "\<not> isMountedRef_ctl torn_down \<and> commit_settle Bpm (Inl http_500) torn_down = torn_down"
proof -
  have "\<not> isMountedRef_ctl torn_down"
    by (simp add: torn_down_def unmount_ctl_def clear_ref_def clearTimeout_def Let_def
          split: option.splits)
  then show ?thesis by (simp add: commit_settle_unmounted)
qed

end
